theory Spec2Isabelle
  imports Main
begin

section \<open>JavaScript values\<close>

text \<open>
  The payloads and query mappings handed to the client are JavaScript values. The model
  covers the JSON-like ones together with \<open>undefined\<close> and \<open>File\<close>: the values that the
  encoders of \<^verbatim>\<open>to.ts\<close> and \<^verbatim>\<open>index.ts\<close> distinguish. An object is the list of its own
  enumerable entries in enumeration order (the order of \<^verbatim>\<open>for ... in\<close> and of
  \<^verbatim>\<open>Object.entries\<close>); its keys are pairwise distinct, which theorems assume where it
  matters. Objects are plain ones: their prototype is \<^verbatim>\<open>Object.prototype\<close>, and an own
  entry shadows the method of the same name there. No value of the model is callable.
  Numbers are the safe integers, those of magnitude at most \<open>2\<^sup>5\<^sup>3 - 1\<close>, which a
  JavaScript number holds exactly and prints in plain decimal.
\<close>

datatype jsfile = File (file_name: string) (file_bytes: string)

typedef safe_int = "{i :: int. - 9007199254740991 \<le> i \<and> i \<le> 9007199254740991}"
  by (rule exI [of _ 0]) simp

setup_lifting type_definition_safe_int

text \<open>The safe integer of a literal: the integer itself when it is in range (zero
  otherwise, which no literal below uses).\<close>

lift_definition safe_of :: "int \<Rightarrow> safe_int"
  is "\<lambda>i. if - 9007199254740991 \<le> i \<and> i \<le> 9007199254740991 then i else 0"
  by simp

instantiation safe_int :: equal
begin

definition equal_safe_int :: "safe_int \<Rightarrow> safe_int \<Rightarrow> bool" where
  "equal_safe_int a b = (Rep_safe_int a = Rep_safe_int b)"

instance
  by standard (simp add: equal_safe_int_def Rep_safe_int_inject)

end

datatype jsval =
    JUndefined
  | JNull
  | JBool bool
  | JNum safe_int
  | JStr string
  | JFile jsfile
  | JArr "jsval list"
  | JObj "(string \<times> jsval) list"

text \<open>
  What can be thrown. Two classes are called \<^verbatim>\<open>HttpError\<close>: the one of \<^verbatim>\<open>./errror\<close>, which
  \<^verbatim>\<open>form.ts\<close> and the package index import (\<open>HttpError\<close>), and the one of \<^verbatim>\<open>./error\<close>,
  which \<^verbatim>\<open>json.ts\<close> imports (\<open>Json_HttpError\<close>). Both carry a status code and a response.
\<close>

datatype error =
    TypeError
  | SyntaxError
  | HttpError nat jsval
  | Json_HttpError nat jsval
  | Error string
  | NetworkError string

fun nullish :: "jsval \<Rightarrow> bool" where
  "nullish JUndefined = True"
| "nullish JNull = True"
| "nullish v = False"

text \<open>\<^verbatim>\<open>typeof value === "object"\<close>: true of \<open>null\<close>, arrays, files and plain objects.\<close>

fun typeof_object :: "jsval \<Rightarrow> bool" where
  "typeof_object JNull = True"
| "typeof_object (JFile f) = True"
| "typeof_object (JArr items) = True"
| "typeof_object (JObj entries) = True"
| "typeof_object v = False"

fun isArray :: "jsval \<Rightarrow> bool" where
  "isArray (JArr items) = True"
| "isArray v = False"

subsection \<open>String conversion\<close>

definition digit_char :: "nat \<Rightarrow> char" where
  "digit_char d = char_of (48 + d)"

fun nat_toString :: "nat \<Rightarrow> string" where
  "nat_toString n =
     (if n < 10 then [digit_char n]
      else nat_toString (n div 10) @ [digit_char (n mod 10)])"

declare nat_toString.simps [simp del]

definition int_toString :: "int \<Rightarrow> string" where
  "int_toString i =
     (if i < 0 then CHR ''-'' # nat_toString (nat (- i)) else nat_toString (nat i))"

text \<open>\<^verbatim>\<open>Array.prototype.join\<close> on strings already converted.\<close>

fun join :: "string \<Rightarrow> string list \<Rightarrow> string" where
  "join sep [] = []"
| "join sep [s] = s"
| "join sep (s # t # ss) = s @ sep @ join sep (t # ss)"

text \<open>Evaluating a list of computations in order, up to the first that throws.\<close>

fun sequence :: "(error + 'a) list \<Rightarrow> error + 'a list" where
  "sequence [] = Inr []"
| "sequence (x # xs) =
     (case x of
        Inl e \<Rightarrow> Inl e
      | Inr a \<Rightarrow> (case sequence xs of Inl e \<Rightarrow> Inl e | Inr as \<Rightarrow> Inr (a # as)))"

text \<open>
  The language's string conversion. A plain object prints its class tag through
  \<^verbatim>\<open>Object.prototype.toString\<close>, unless it has an own entry \<^verbatim>\<open>toString\<close>: that entry is
  not callable, and the conversion throws a \<open>TypeError\<close>. A file prints its class tag.
  An array prints its elements joined by commas, a \<open>null\<close> or \<open>undefined\<close> element
  printing as the empty string; it throws when the conversion of an element does.
\<close>

fun ToString :: "jsval \<Rightarrow> error + string" where
  "ToString JUndefined = Inr ''undefined''"
| "ToString JNull = Inr ''null''"
| "ToString (JBool b) = Inr (if b then ''true'' else ''false'')"
| "ToString (JNum n) = Inr (int_toString (Rep_safe_int n))"
| "ToString (JStr s) = Inr s"
| "ToString (JFile f) = Inr ''[object File]''"
| "ToString (JArr items) =
     (case sequence (map (\<lambda>item. if nullish item then Inr [] else ToString item) items) of
        Inl e \<Rightarrow> Inl e
      | Inr strings \<Rightarrow> Inr (join '','' strings))"
| "ToString (JObj entries) =
     (if ''toString'' \<in> set (map fst entries) then Inl TypeError
      else Inr ''[object Object]'')"

text \<open>
  The method call \<^verbatim>\<open>value.toString()\<close>: a property access on \<open>null\<close> or \<open>undefined\<close>
  throws a \<open>TypeError\<close>, and so does the call of an own entry \<^verbatim>\<open>toString\<close>; otherwise the
  method found is the one the conversion uses.
\<close>

definition toString :: "jsval \<Rightarrow> error + string" where
  "toString v = (if nullish v then Inl TypeError else ToString v)"

text \<open>
  The expression \<^verbatim>\<open>value?.toString() || ""\<close>: the optional call yields \<open>undefined\<close> on a
  nullish value, and \<^verbatim>\<open>||\<close> replaces \<open>undefined\<close> and the empty string by \<^verbatim>\<open>""\<close>.
\<close>

definition toString_or_empty :: "jsval \<Rightarrow> error + string" where
  "toString_or_empty v =
     (if nullish v then Inr []
      else (case ToString v of
              Inl e \<Rightarrow> Inl e
            | Inr s \<Rightarrow> Inr (if s = [] then [] else s)))"

section \<open>The form encoder\<close>

text \<open>
  A \<^verbatim>\<open>FormData\<close> object is its entry list: \<^verbatim>\<open>append\<close> adds one entry at the end and
  never replaces an earlier entry of the same name. An entry holds a string or a file.
\<close>

datatype form_value = FString string | FFile jsfile

type_synonym FormData = "(string \<times> form_value) list"

text \<open>
  The \<^verbatim>\<open>forEach\<close> over a non-empty array inside \<^verbatim>\<open>jsonToFormData\<close>: a file goes under the
  array's own key, any other item under \<^verbatim>\<open>formKey[index]\<close> as
  \<^verbatim>\<open>item?.toString() || ""\<close>, which may throw.
\<close>

fun appendItems :: "string \<Rightarrow> jsval list \<Rightarrow> nat \<Rightarrow> FormData \<Rightarrow> error + FormData" where
  "appendItems formKey [] index formData = Inr formData"
| "appendItems formKey (item # items) index formData =
     (let arrayKey = formKey @ ''['' @ nat_toString index @ '']'' in
      case (case item of
              JFile f \<Rightarrow> Inr (formData @ [(formKey, FFile f)])
            | _ \<Rightarrow> (case toString_or_empty item of
                      Inl e \<Rightarrow> Inl e
                    | Inr s \<Rightarrow> Inr (formData @ [(arrayKey, FString s)]))) of
        Inl e \<Rightarrow> Inl e
      | Inr formData' \<Rightarrow> appendItems formKey items (Suc index) formData')"

text \<open>
  The call \<^verbatim>\<open>jsonObject.hasOwnProperty(key)\<close>: the method of \<^verbatim>\<open>Object.prototype\<close>, unless
  the object has an own entry \<^verbatim>\<open>hasOwnProperty\<close>, whose call throws a \<open>TypeError\<close>.
\<close>

definition hasOwnProperty :: "(string \<times> jsval) list \<Rightarrow> string \<Rightarrow> error + bool" where
  "hasOwnProperty jsonObject key =
     (if ''hasOwnProperty'' \<in> set (map fst jsonObject) then Inl TypeError
      else Inr (key \<in> set (map fst jsonObject)))"

text \<open>
  \<^verbatim>\<open>jsonToFormData(jsonObject, formData, parentKey)\<close> of \<^verbatim>\<open>ToPath\<close> (and, with the same
  text, of \<^verbatim>\<open>Parser\<close> in \<^verbatim>\<open>index.ts\<close>). \<open>forIn\<close> is its loop \<^verbatim>\<open>for (const key in
  jsonObject)\<close> over the entries still to visit. Each pass first calls
  \<^verbatim>\<open>jsonObject.hasOwnProperty(key)\<close>; the branches are then tested in the source's order:
  file, array, truthy non-file object, everything else. The test
  \<^verbatim>\<open>parentKey ? ... : ...\<close> is a truthiness test, so the empty prefix counts as no prefix.
  A throw leaves the function: nothing is returned.
\<close>

function jsonToFormData :: "(string \<times> jsval) list \<Rightarrow> FormData \<Rightarrow> string \<Rightarrow> error + FormData"
  and forIn ::
    "(string \<times> jsval) list \<Rightarrow> (string \<times> jsval) list \<Rightarrow> FormData \<Rightarrow> string \<Rightarrow> error + FormData"
where
  "jsonToFormData jsonObject formData parentKey = forIn jsonObject jsonObject formData parentKey"
| "forIn jsonObject [] formData parentKey = Inr formData"
| "forIn jsonObject ((key, value) # rest) formData parentKey =
     (case hasOwnProperty jsonObject key of
        Inl e \<Rightarrow> Inl e
      | Inr own \<Rightarrow>
          (case (if own then
                   (let formKey =
                      (if parentKey \<noteq> [] then parentKey @ ''['' @ key @ '']'' else key)
                    in case value of
                         JFile f \<Rightarrow>
                           (let formKeyFile = (if parentKey \<noteq> [] then parentKey else key)
                            in Inr (formData @ [(formKeyFile, FFile f)]))
                       | JArr items \<Rightarrow>
                           (if length items = 0 then Inr (formData @ [(formKey, FString [])])
                            else appendItems formKey items 0 formData)
                       | JObj entries \<Rightarrow> jsonToFormData entries formData formKey
                       | _ \<Rightarrow>
                           (case toString_or_empty value of
                              Inl e \<Rightarrow> Inl e
                            | Inr s \<Rightarrow> Inr (formData @ [(formKey, FString s)])))
                 else Inr formData) of
             Inl e \<Rightarrow> Inl e
           | Inr formData' \<Rightarrow> forIn jsonObject rest formData' parentKey))"
  by pat_completeness auto
termination
  by (relation "measure (\<lambda>x. case x of
          Inl (es, fd, p) \<Rightarrow> 2 * size_list (size_prod (\<lambda>_. 0) size) es + 1
        | Inr (obj, es, fd, p) \<Rightarrow> 2 * size_list (size_prod (\<lambda>_. 0) size) es)") auto

declare jsonToFormData.simps [simp del]
declare forIn.simps(2) [simp del]

text \<open>The bracket-qualified key computed at the top of the loop body, and names that
  end in a closing bracket, as every bracket-qualified key does.\<close>

definition formKeyOf :: "string \<Rightarrow> string \<Rightarrow> string" where
  "formKeyOf parentKey key =
     (if parentKey \<noteq> [] then parentKey @ ''['' @ key @ '']'' else key)"

definition ends_bracket :: "string \<Rightarrow> bool" where
  "ends_bracket n = (n \<noteq> [] \<and> last n = CHR '']'')"

subsection \<open>When the form encoder throws, stated apart from the encoder\<close>

text \<open>
  A value whose string conversion throws: a plain object with an own entry
  \<^verbatim>\<open>toString\<close>, or an array with such an element that is not nullish.
\<close>

fun unprintable :: "jsval \<Rightarrow> bool" where
  "unprintable (JObj entries) = (''toString'' \<in> set (map fst entries))"
| "unprintable (JArr items) = list_ex (\<lambda>item. \<not> nullish item \<and> unprintable item) items"
| "unprintable v = False"

fun isFile :: "jsval \<Rightarrow> bool" where
  "isFile (JFile f) = True"
| "isFile v = False"

text \<open>
  A mapping on which the form encoder throws: it has an own entry \<^verbatim>\<open>hasOwnProperty\<close>, or
  an array among its values has an item, not a file, whose conversion throws, or a
  mapping among its values is one on which the encoder throws. Array items are not
  descended into.
\<close>

function valueThrows :: "jsval \<Rightarrow> bool" and objThrows :: "(string \<times> jsval) list \<Rightarrow> bool" where
  "valueThrows (JObj entries) = objThrows entries"
| "valueThrows (JArr items) = list_ex (\<lambda>item. \<not> isFile item \<and> unprintable item) items"
| "valueThrows (JFile f) = False"
| "valueThrows JUndefined = False"
| "valueThrows JNull = False"
| "valueThrows (JBool b) = False"
| "valueThrows (JNum n) = False"
| "valueThrows (JStr s) = False"
| "objThrows entries =
     (''hasOwnProperty'' \<in> set (map fst entries) \<or> list_ex (\<lambda>(key, value). valueThrows value) entries)"
  by pat_completeness auto
termination
  by (relation "measure (\<lambda>x. case x of
          Inl v \<Rightarrow> 2 * size v
        | Inr es \<Rightarrow> 2 * size_list (size_prod (\<lambda>_. 0) size) es + 1)")
     (auto simp: less_Suc_eq_le size_list_estimation')

declare objThrows.simps [simp del]

subsection \<open>The fields of a mapping, stated apart from the encoder\<close>

text \<open>
  The string a value prints as, where its conversion does not throw; and the fields the
  encoder is to append for the items of an array, for one entry and for a mapping, as
  plain lists. The encoder is compared with them below; it does not use them.
\<close>

definition the_string :: "jsval \<Rightarrow> string" where
  "the_string v = (case ToString v of Inl e \<Rightarrow> [] | Inr s \<Rightarrow> s)"

fun itemFields :: "string \<Rightarrow> jsval list \<Rightarrow> nat \<Rightarrow> FormData" where
  "itemFields formKey [] index = []"
| "itemFields formKey (item # items) index =
     (case item of
        JFile f \<Rightarrow> (formKey, FFile f)
      | _ \<Rightarrow> (formKey @ ''['' @ nat_toString index @ '']'',
              FString (if nullish item then [] else the_string item)))
     # itemFields formKey items (Suc index)"

function entryFields :: "string \<Rightarrow> string \<Rightarrow> jsval \<Rightarrow> FormData"
  and objFields :: "string \<Rightarrow> (string \<times> jsval) list \<Rightarrow> FormData"
where
  "entryFields parentKey key (JFile f) = [(if parentKey \<noteq> [] then parentKey else key, FFile f)]"
| "entryFields parentKey key (JArr items) =
     (if items = [] then [(formKeyOf parentKey key, FString [])]
      else itemFields (formKeyOf parentKey key) items 0)"
| "entryFields parentKey key (JObj entries) = objFields (formKeyOf parentKey key) entries"
| "entryFields parentKey key JUndefined = [(formKeyOf parentKey key, FString [])]"
| "entryFields parentKey key JNull = [(formKeyOf parentKey key, FString [])]"
| "entryFields parentKey key (JBool b) = [(formKeyOf parentKey key, FString (the_string (JBool b)))]"
| "entryFields parentKey key (JNum n) = [(formKeyOf parentKey key, FString (the_string (JNum n)))]"
| "entryFields parentKey key (JStr s) = [(formKeyOf parentKey key, FString s)]"
| "objFields parentKey [] = []"
| "objFields parentKey ((key, value) # rest) =
     entryFields parentKey key value @ objFields parentKey rest"
  by pat_completeness auto
termination
  by (relation "measure (\<lambda>x. case x of
          Inl (p, k, v) \<Rightarrow> size v
        | Inr (p, es) \<Rightarrow> size_list (size_prod (\<lambda>_. 0) size) es)") auto

section \<open>The query encoders\<close>

text \<open>
  A \<^verbatim>\<open>URLSearchParams\<close> object is its list of name-value pairs; the query string is that
  list written out in order by the runtime. \<^verbatim>\<open>set(name, value)\<close> overwrites the first pair
  of that name and removes the others, or appends a new pair when there is none.
\<close>

type_synonym URLSearchParams = "(string \<times> string) list"

fun searchParams_set :: "URLSearchParams \<Rightarrow> string \<Rightarrow> string \<Rightarrow> URLSearchParams" where
  "searchParams_set [] name value = [(name, value)]"
| "searchParams_set ((n, v) # rest) name value =
     (if n = name then (name, value) # filter (\<lambda>(n', v'). n' \<noteq> name) rest
      else (n, v) # searchParams_set rest name value)"

text \<open>
  \<^verbatim>\<open>addParam\<close> inside \<^verbatim>\<open>Parser.setSearchParams\<close> of \<^verbatim>\<open>index.ts\<close>, with the
  \<^verbatim>\<open>URLSearchParams\<close> it closes over passed along. The guard is the source's:
  \<^verbatim>\<open>typeof value === "object" && !Array.isArray(value)\<close>. Under it,
  \<^verbatim>\<open>Object.entries\<close> throws on \<open>null\<close> and finds no own entry in a file; otherwise
  \<^verbatim>\<open>value.toString()\<close> is set, which throws on \<open>undefined\<close> and on an array with an
  element whose conversion throws. A throw leaves the function, so the remaining entries
  are not visited.
\<close>

function addParam :: "string \<Rightarrow> string \<Rightarrow> jsval \<Rightarrow> URLSearchParams \<Rightarrow> error + URLSearchParams"
  and addParam_forEach ::
    "string \<Rightarrow> string \<Rightarrow> (string \<times> jsval) list \<Rightarrow> URLSearchParams \<Rightarrow> error + URLSearchParams"
where
  "addParam prefix key value searchParams =
     (if typeof_object value \<and> \<not> isArray value then
        (case value of
           JObj entries \<Rightarrow> addParam_forEach prefix key entries searchParams
         | JNull \<Rightarrow> Inl TypeError
         | _ \<Rightarrow> Inr searchParams)
      else
        (case toString value of
           Inl e \<Rightarrow> Inl e
         | Inr s \<Rightarrow>
             Inr (searchParams_set searchParams (if prefix \<noteq> [] then prefix @ key else key) s)))"
| "addParam_forEach prefix key [] searchParams = Inr searchParams"
| "addParam_forEach prefix key ((nestedKey, nestedValue) # rest) searchParams =
     (case addParam prefix (prefix @ key @ ''['' @ nestedKey @ '']'') nestedValue searchParams of
        Inl e \<Rightarrow> Inl e
      | Inr searchParams' \<Rightarrow> addParam_forEach prefix key rest searchParams')"
  by pat_completeness auto
termination
  by (relation "measure (\<lambda>x. case x of
          Inl (p, k, v, sp) \<Rightarrow> size v
        | Inr (p, k, es, sp) \<Rightarrow> size_list (size_prod (\<lambda>_. 0) size) es)") auto

declare addParam.simps [simp del]

text \<open>The outer \<^verbatim>\<open>Object.entries(params).forEach(([key, value]) => addParam(key, value))\<close>.\<close>

fun addParams :: "string \<Rightarrow> (string \<times> jsval) list \<Rightarrow> URLSearchParams \<Rightarrow> error + URLSearchParams" where
  "addParams prefix [] searchParams = Inr searchParams"
| "addParams prefix ((key, value) # rest) searchParams =
     (case addParam prefix key value searchParams of
        Inl e \<Rightarrow> Inl e
      | Inr searchParams' \<Rightarrow> addParams prefix rest searchParams')"

definition Parser_setSearchParams :: "(string \<times> jsval) list \<Rightarrow> string \<Rightarrow> error + URLSearchParams" where
  "Parser_setSearchParams params prefix = addParams prefix params []"

text \<open>
  \<^verbatim>\<open>NextClient.setSearchParams\<close> of the compiled \<^verbatim>\<open>request.js\<close>: one \<^verbatim>\<open>set\<close> per top-level
  entry, with \<^verbatim>\<open>value.toString()\<close> and no descent into nested values.
\<close>

fun setEntries :: "(string \<times> jsval) list \<Rightarrow> URLSearchParams \<Rightarrow> error + URLSearchParams" where
  "setEntries [] searchParams = Inr searchParams"
| "setEntries ((key, value) # rest) searchParams =
     (case toString value of
        Inl e \<Rightarrow> Inl e
      | Inr s \<Rightarrow> setEntries rest (searchParams_set searchParams key s))"

definition NextClient_setSearchParams :: "(string \<times> jsval) list \<Rightarrow> error + URLSearchParams" where
  "NextClient_setSearchParams params = setEntries params []"

subsection \<open>Flattening, stated apart from the encoder\<close>

text \<open>
  The leaves of a query value: the final key names with the values found there, in the
  order of the traversal. A plain object is descended into with bracket notation, a file
  has no entries, and every other value (arrays included) is a leaf. This is the
  yardstick the encoder is compared with; it is not used by the encoder itself.
\<close>

function queryLeaves :: "string \<Rightarrow> string \<Rightarrow> jsval \<Rightarrow> (string \<times> jsval) list" where
  "queryLeaves prefix key (JObj entries) =
     concat (map (\<lambda>(nestedKey, nestedValue).
        queryLeaves prefix (prefix @ key @ ''['' @ nestedKey @ '']'') nestedValue) entries)"
| "queryLeaves prefix key (JFile f) = []"
| "queryLeaves prefix key JUndefined = [(prefix @ key, JUndefined)]"
| "queryLeaves prefix key JNull = [(prefix @ key, JNull)]"
| "queryLeaves prefix key (JBool b) = [(prefix @ key, JBool b)]"
| "queryLeaves prefix key (JNum n) = [(prefix @ key, JNum n)]"
| "queryLeaves prefix key (JStr s) = [(prefix @ key, JStr s)]"
| "queryLeaves prefix key (JArr items) = [(prefix @ key, JArr items)]"
  by pat_completeness auto
termination
  by (relation "measure (\<lambda>(p, k, v). size v)") (auto simp: less_Suc_eq_le size_list_estimation')

definition paramLeaves :: "string \<Rightarrow> (string \<times> jsval) list \<Rightarrow> (string \<times> jsval) list" where
  "paramLeaves prefix params = concat (map (\<lambda>(key, value). queryLeaves prefix key value) params)"

text \<open>The \<^verbatim>\<open>set\<close> calls that a list of leaves stands for, replayed in order.\<close>

definition setAll :: "(string \<times> jsval) list \<Rightarrow> URLSearchParams \<Rightarrow> URLSearchParams" where
  "setAll leaves searchParams =
     fold (\<lambda>(name, value) sp. searchParams_set sp name (the_string value)) leaves searchParams"

text \<open>The names and strings of those calls.\<close>

definition written :: "(string \<times> jsval) list \<Rightarrow> (string \<times> string) list" where
  "written leaves = map (\<lambda>(name, value). (name, the_string value)) leaves"

definition hasNullish :: "(string \<times> jsval) list \<Rightarrow> bool" where
  "hasNullish leaves = list_ex (\<lambda>(name, value). nullish value) leaves"

text \<open>A leaf on which \<^verbatim>\<open>value.toString()\<close> throws: a nullish one, or one whose
  conversion throws.\<close>

definition leavesThrow :: "(string \<times> jsval) list \<Rightarrow> bool" where
  "leavesThrow leaves = list_ex (\<lambda>(name, value). nullish value \<or> unprintable value) leaves"


section \<open>Requests, responses and the transport\<close>

datatype TMethads = GET | HEAD | OPTIONS | POST | PUT | DELETE | PATCH

text \<open>
  \<^verbatim>\<open>NextClientConfig\<close>, as \<^verbatim>\<open>index.ts\<close> declares it; \<^verbatim>\<open>form.ts\<close> and \<^verbatim>\<open>json.ts\<close> import
  a type of this name and read only its \<^verbatim>\<open>debug\<close> member. A header object is a map from
  names to values, an absent one the empty map.
\<close>

record NextClientConfig =
  debug :: "bool option"
  baseUrl :: string
  headers :: "string \<rightharpoonup> string"
  prefix :: "string option"

text \<open>
  \<^verbatim>\<open>RequestInit\<close>: its \<^verbatim>\<open>headers\<close> member, and the members that are handed to the transport
  as they are (cache, credentials, signal, ...).
\<close>

record RequestInit =
  init_headers :: "string \<rightharpoonup> string"
  init_options :: "string \<rightharpoonup> string"

text \<open>
  \<^verbatim>\<open>new URL(path, host)\<close> with its \<^verbatim>\<open>search\<close> assigned; resolving and printing the URL are
  the runtime's and stay symbolic.
\<close>

record URL =
  url_path :: string
  url_base :: string
  url_search :: URLSearchParams

text \<open>
  A request body is a \<^verbatim>\<open>FormData\<close> object or the text \<^verbatim>\<open>JSON.stringify\<close> returns, which is
  kept as the value it prints. \<^verbatim>\<open>JSON.stringify(undefined)\<close> is \<open>undefined\<close>: no body.
\<close>

datatype body = FormDataBody FormData | JsonText jsval

definition JSON_stringify :: "jsval \<Rightarrow> body option" where
  "JSON_stringify v = (if v = JUndefined then None else Some (JsonText v))"

text \<open>The second argument of \<^verbatim>\<open>fetch\<close>, with the URL; \<open>None\<close> is a \<open>null\<close> or absent body.\<close>

record fetch_request =
  req_url :: URL
  req_method :: TMethads
  req_headers :: "string \<rightharpoonup> string"
  req_body :: "body option"
  req_options :: "string \<rightharpoonup> string"

text \<open>
  A completed response: its status, what \<^verbatim>\<open>headers.get("Content-Type")\<close> returns, the body
  as text, and what \<^verbatim>\<open>json()\<close> resolves to, \<open>None\<close> when the body does not parse.
  \<^verbatim>\<open>response.ok\<close> is a status from 200 to 299.
\<close>

record response =
  resp_status :: nat
  resp_content_type :: "string option"
  resp_text :: string
  resp_json :: "jsval option"

definition ok :: "response \<Rightarrow> bool" where
  "ok r = (200 \<le> resp_status r \<and> resp_status r \<le> 299)"

text \<open>The transport: \<^verbatim>\<open>fetch\<close> rejects with an error or resolves to a response.\<close>

type_synonym transport = "fetch_request \<Rightarrow> error + response"

record result =
  statusCode :: nat
  data :: jsval

text \<open>\<^verbatim>\<open>String.prototype.includes\<close>.\<close>

fun startsWith :: "string \<Rightarrow> string \<Rightarrow> bool" where
  "startsWith s [] = True"
| "startsWith [] (c # cs) = False"
| "startsWith (x # xs) (c # cs) = (x = c \<and> startsWith xs cs)"

fun includes_str :: "string \<Rightarrow> string \<Rightarrow> bool" where
  "includes_str [] sub = (sub = [])"
| "includes_str (x # xs) sub = (startsWith (x # xs) sub \<or> includes_str xs sub)"

text \<open>
  What \<^verbatim>\<open>FormRequest.send\<close> and \<^verbatim>\<open>JsonRequest.send\<close> both do with the response, in the
  same words, each with the \<^verbatim>\<open>HttpError\<close> class it imports (\<open>newHttpError\<close> below): a
  response that is not \<^verbatim>\<open>ok\<close> throws an \<^verbatim>\<open>HttpError\<close> with the parsed body,
  or with the text when parsing throws; otherwise the content type selects the reading,
  and an unknown one throws a plain \<^verbatim>\<open>Error\<close>. A JSON content type over a body that does
  not parse lets the \<open>SyntaxError\<close> of \<^verbatim>\<open>json()\<close> through.
\<close>

definition readResponse :: "(nat \<Rightarrow> jsval \<Rightarrow> error) \<Rightarrow> response \<Rightarrow> error + result" where
  "readResponse newHttpError response =
     (let statusCode' = resp_status response in
      if \<not> ok response then
        (let errorText =
           (case resp_json response of
              Some parsed \<Rightarrow> parsed
            | None \<Rightarrow> JStr (resp_text response))
         in Inl (newHttpError (resp_status response) errorText))
      else
        (let contentType =
           (case resp_content_type response of
              None \<Rightarrow> []
            | Some c \<Rightarrow> if c = [] then [] else c)
         in
         if includes_str contentType ''application/json'' then
           (case resp_json response of
              Some responseData \<Rightarrow> Inr \<lparr>statusCode = statusCode', data = responseData\<rparr>
            | None \<Rightarrow> Inl SyntaxError)
         else if includes_str contentType ''text/'' \<or> contentType = [] then
           Inr \<lparr>statusCode = statusCode', data = JStr (resp_text response)\<rparr>
         else Inl (Error (''Unsupported content type: '' @ contentType))))"

text \<open>
  \<^verbatim>\<open>isNextClientError\<close> of the package index: \<^verbatim>\<open>error instanceof HttpError\<close>, with the
  class of \<^verbatim>\<open>./errror\<close>; and the \<^verbatim>\<open>statusCode\<close> member, which the two \<^verbatim>\<open>HttpError\<close>
  classes have and no other error.
\<close>

fun isNextClientError :: "error \<Rightarrow> bool" where
  "isNextClientError (HttpError statusCode' response') = True"
| "isNextClientError e = False"

fun error_statusCode :: "error \<Rightarrow> nat option" where
  "error_statusCode (HttpError statusCode' response') = Some statusCode'"
| "error_statusCode (Json_HttpError statusCode' response') = Some statusCode'"
| "error_statusCode e = None"

text \<open>\<^verbatim>\<open>error instanceof HttpError\<close> inside \<^verbatim>\<open>form.ts\<close> and inside \<^verbatim>\<open>json.ts\<close>, each with
  the class the file imports, giving the members the debug report reads.\<close>

fun form_instanceof_HttpError :: "error \<Rightarrow> (nat \<times> jsval) option" where
  "form_instanceof_HttpError (HttpError statusCode' response') = Some (statusCode', response')"
| "form_instanceof_HttpError e = None"

fun json_instanceof_HttpError :: "error \<Rightarrow> (nat \<times> jsval) option" where
  "json_instanceof_HttpError (Json_HttpError statusCode' response') = Some (statusCode', response')"
| "json_instanceof_HttpError e = None"

text \<open>
  The debug report of the \<^verbatim>\<open>catch\<close> block: for an \<^verbatim>\<open>HttpError\<close> the endpoint, method,
  payload, status code and response; for any other error the error itself.
\<close>

datatype payload = FormPayload FormData | JsonPayload jsval

datatype log_entry =
    DebugHttpError URL TMethads payload nat jsval
  | DebugFailure error

definition debugReport ::
    "(error \<Rightarrow> (nat \<times> jsval) option) \<Rightarrow> NextClientConfig option \<Rightarrow> URL \<Rightarrow> TMethads \<Rightarrow> payload
      \<Rightarrow> error \<Rightarrow> log_entry list" where
  "debugReport instanceof_HttpError config url method' formData' error' =
     (if (case config of None \<Rightarrow> False | Some c \<Rightarrow> debug c = Some True) then
        (case instanceof_HttpError error' of
           Some (statusCode', response') \<Rightarrow>
             [DebugHttpError url method' formData' statusCode' response']
         | None \<Rightarrow> [DebugFailure error'])
      else [])"

subsection \<open>\<^verbatim>\<open>FormRequest\<close> (form.ts)\<close>

text \<open>
  A \<^verbatim>\<open>FormRequest\<close> holds a reference to a \<^verbatim>\<open>FormData\<close> object. The objects live in a store
  indexed by address, so that two requests holding the same address see the same object;
  \<open>fd_next\<close> is the next unused address. The other fields are never assigned after the
  constructor, so the request itself is a value.
\<close>

type_synonym addr = nat

record fd_store =
  fd_cells :: "addr \<Rightarrow> FormData"
  fd_next :: addr

record FormRequest =
  fr_formData :: addr
  fr_path :: string
  fr_host :: string
  fr_init :: RequestInit
  fr_method :: TMethads
  fr_searchParams :: URLSearchParams
  fr_config :: "NextClientConfig option"

text \<open>
  \<^verbatim>\<open>append(key, file)\<close>: appends to the \<^verbatim>\<open>FormData\<close> object in place and returns a new
  \<^verbatim>\<open>FormRequest\<close> built from six arguments, the seventh (\<^verbatim>\<open>config\<close>) being left out.
\<close>

definition FormRequest_append ::
    "fd_store \<Rightarrow> FormRequest \<Rightarrow> string \<Rightarrow> form_value \<Rightarrow> fd_store \<times> FormRequest" where
  "FormRequest_append store this key file' =
     (store\<lparr>fd_cells := (fd_cells store)
         (fr_formData this := fd_cells store (fr_formData this) @ [(key, file')])\<rparr>,
      \<lparr>fr_formData = fr_formData this, fr_path = fr_path this, fr_host = fr_host this,
       fr_init = fr_init this, fr_method = fr_method this,
       fr_searchParams = fr_searchParams this, fr_config = None\<rparr>)"

text \<open>The argument \<^verbatim>\<open>FormRequest.send\<close> gives to \<^verbatim>\<open>fetch\<close>.\<close>

definition FormRequest_request ::
    "fd_store \<Rightarrow> FormRequest \<Rightarrow> (string \<rightharpoonup> string) \<Rightarrow> RequestInit option \<Rightarrow> fetch_request" where
  "FormRequest_request store this headers' init' =
     \<lparr>req_url = \<lparr>url_path = fr_path this, url_base = fr_host this,
                  url_search = fr_searchParams this\<rparr>,
      req_method = fr_method this,
      req_headers = init_headers (fr_init this) ++ headers',
      req_body = (if fr_method this = GET then None
                  else Some (FormDataBody (fd_cells store (fr_formData this)))),
      req_options = init_options (fr_init this) ++
                    (case init' of None \<Rightarrow> Map.empty | Some i \<Rightarrow> init_options i)\<rparr>"

text \<open>
  \<^verbatim>\<open>FormRequest.send\<close>: the \<^verbatim>\<open>try\<close> block, then the \<^verbatim>\<open>catch\<close> block, which reports when
  \<^verbatim>\<open>this.config?.debug\<close> is truthy and rethrows. The result is the debug output and the
  outcome of the promise.
\<close>

definition FormRequest_send ::
    "transport \<Rightarrow> fd_store \<Rightarrow> FormRequest \<Rightarrow> (string \<rightharpoonup> string) \<Rightarrow> RequestInit option
      \<Rightarrow> log_entry list \<times> (error + result)" where
  "FormRequest_send fetch store this headers' init' =
     (let request = FormRequest_request store this headers' init' in
      case (case fetch request of
              Inl e \<Rightarrow> Inl e
            | Inr response \<Rightarrow> readResponse HttpError response) of
        Inr r \<Rightarrow> ([], Inr r)
      | Inl error' \<Rightarrow>
          (debugReport form_instanceof_HttpError (fr_config this) (req_url request) (fr_method this)
             (FormPayload (fd_cells store (fr_formData this))) error',
           Inl error'))"

subsection \<open>\<^verbatim>\<open>JsonRequest\<close> (json.ts)\<close>

record JsonRequest =
  jr_formData :: jsval
  jr_path :: string
  jr_host :: string
  jr_init :: RequestInit
  jr_method :: TMethads
  jr_searchParams :: URLSearchParams
  jr_config :: "NextClientConfig option"

text \<open>The argument \<^verbatim>\<open>JsonRequest.send\<close> gives to \<^verbatim>\<open>fetch\<close>: the body is
  \<^verbatim>\<open>JSON.stringify(this.formData)\<close> whatever the method.\<close>

definition JsonRequest_request :: "JsonRequest \<Rightarrow> (string \<rightharpoonup> string) \<Rightarrow> fetch_request" where
  "JsonRequest_request this headers' =
     \<lparr>req_url = \<lparr>url_path = jr_path this, url_base = jr_host this,
                  url_search = jr_searchParams this\<rparr>,
      req_method = jr_method this,
      req_headers = [''Content-Type'' \<mapsto> ''application/json''] ++
                    init_headers (jr_init this) ++ headers',
      req_body = JSON_stringify (jr_formData this),
      req_options = init_options (jr_init this)\<rparr>"

definition JsonRequest_send ::
    "transport \<Rightarrow> JsonRequest \<Rightarrow> (string \<rightharpoonup> string) \<Rightarrow> log_entry list \<times> (error + result)" where
  "JsonRequest_send fetch this headers' =
     (let request = JsonRequest_request this headers' in
      case (case fetch request of
              Inl e \<Rightarrow> Inl e
            | Inr response \<Rightarrow> readResponse Json_HttpError response) of
        Inr r \<Rightarrow> ([], Inr r)
      | Inl error' \<Rightarrow>
          (debugReport json_instanceof_HttpError (jr_config this) (req_url request) (jr_method this)
             (JsonPayload (jr_formData this)) error',
           Inl error'))"

subsection \<open>\<^verbatim>\<open>ToPath\<close> (to.ts)\<close>

record ToPath =
  tp_path :: string
  tp_host :: string
  tp_init :: RequestInit
  tp_method :: TMethads
  tp_searchParams :: URLSearchParams
  tp_config :: "NextClientConfig option"


definition ToPath_json :: "ToPath \<Rightarrow> jsval \<Rightarrow> JsonRequest" where
  "ToPath_json this data' =
     \<lparr>jr_formData = data', jr_path = tp_path this, jr_host = tp_host this,
      jr_init = tp_init this, jr_method = tp_method this,
      jr_searchParams = tp_searchParams this, jr_config = tp_config this\<rparr>"


section \<open>The chained builder of index.ts\<close>











subsection \<open>A small chain, for concrete runs\<close>




definition demo_init :: RequestInit where
  "demo_init = \<lparr>init_headers = Map.empty, init_options = Map.empty\<rparr>"

definition demo_debug :: NextClientConfig where
  "demo_debug =
     \<lparr>debug = Some True, baseUrl = ''https://api.example.com'', headers = Map.empty,
      prefix = None\<rparr>"

definition demo_store :: fd_store where
  "demo_store = \<lparr>fd_cells = (\<lambda>a. []), fd_next = 1\<rparr>"

definition demo_upload :: FormRequest where
  "demo_upload =
     \<lparr>fr_formData = 0, fr_path = ''/upload'', fr_host = ''https://api.example.com'',
      fr_init = demo_init, fr_method = POST, fr_searchParams = [],
      fr_config = Some demo_debug\<rparr>"

definition demo_get_json :: JsonRequest where
  "demo_get_json =
     \<lparr>jr_formData = JObj [(''a'', JNum (safe_of 1))], jr_path = ''/users'',
      jr_host = ''https://api.example.com'', jr_init = demo_init, jr_method = GET,
      jr_searchParams = [], jr_config = None\<rparr>"

text \<open>Transports that answer every request alike: with a response, or with a rejection.\<close>

definition answering :: "response \<Rightarrow> transport" where
  "answering r request = Inr r"

definition demo_404 :: response where
  "demo_404 =
     \<lparr>resp_status = 404, resp_content_type = Some ''application/json'',
      resp_text = ''{\"code\":404}'', resp_json = Some (JObj [(''code'', JNum (safe_of 404))])\<rparr>"

definition demo_500 :: response where
  "demo_500 =
     \<lparr>resp_status = 500, resp_content_type = Some ''text/html'',
      resp_text = ''<h1>failure</h1>'', resp_json = None\<rparr>"

definition demo_xml :: response where
  "demo_xml =
     \<lparr>resp_status = 200, resp_content_type = Some ''application/xml'',
      resp_text = ''<a/>'', resp_json = None\<rparr>"

section \<open>Properties of the form encoder\<close>

text \<open>
  The string conversion and the item loop against their plain descriptions: each throws
  a \<open>TypeError\<close> exactly on the values said to throw, and otherwise returns the plain
  result.
\<close>

lemma sequence_map:
  assumes "\<And>x. x \<in> set xs \<Longrightarrow> f x = (if bad x then Inl TypeError else Inr (g x))"
  shows "sequence (map f xs) = (if list_ex bad xs then Inl TypeError else Inr (map g xs))"
  using assms by (induction xs) auto

lemma ToString_outcome:
  "(unprintable v \<longrightarrow> ToString v = Inl TypeError) \<and>
   (\<not> unprintable v \<longrightarrow> (\<exists>s. ToString v = Inr s))"
proof (induction v rule: ToString.induct)
  case (7 items)
  have elem: "(if nullish item then Inr [] else ToString item) =
      (if \<not> nullish item \<and> unprintable item then Inl TypeError
       else Inr (if nullish item then [] else the_string item))"
    if "item \<in> set items" for item
  proof (cases "nullish item")
    case True
    then show ?thesis by simp
  next
    case False
    then show ?thesis using "7.IH"[OF that False] by (auto simp: the_string_def)
  qed
  show ?case
    by (simp add: sequence_map[where bad = "\<lambda>item. \<not> nullish item \<and> unprintable item"
          and g = "\<lambda>item. if nullish item then [] else the_string item", OF elem])
qed simp_all

lemma ToString_eq:
  "ToString v = (if unprintable v then Inl TypeError else Inr (the_string v))"
  using ToString_outcome[of v] by (auto simp: the_string_def)

lemma toString_eq:
  "toString v = (if nullish v \<or> unprintable v then Inl TypeError else Inr (the_string v))"
  by (simp add: toString_def ToString_eq)

lemma toString_or_empty_eq:
  "toString_or_empty v =
     (if unprintable v then Inl TypeError
      else Inr (if nullish v then [] else the_string v))"
  by (cases v) (simp_all add: toString_or_empty_def ToString_eq)

lemma appendItems_eq:
  "appendItems formKey items i fd =
     (if list_ex (\<lambda>item. \<not> isFile item \<and> unprintable item) items then Inl TypeError
      else Inr (fd @ itemFields formKey items i))"
proof (induction items arbitrary: i fd)
  case Nil
  show ?case by simp
next
  case (Cons item items)
  show ?case
    by (cases item) (simp_all add: Cons.IH toString_or_empty_eq Let_def)
qed


text \<open>
  The encoder against the plain field lists: it throws a \<open>TypeError\<close> exactly on the
  mappings of \<open>objThrows\<close>, and otherwise returns the form it was given followed by the
  fields of the mapping.
\<close>

lemma entry_step:
  assumes nested: "\<And>es. val = JObj es \<Longrightarrow>
      jsonToFormData es fd (formKeyOf p k) =
        (if objThrows es then Inl TypeError else Inr (fd @ objFields (formKeyOf p k) es))"
  shows "(let formKey = (if p \<noteq> [] then p @ ''['' @ k @ '']'' else k)
          in case val of
               JFile f \<Rightarrow>
                 (let formKeyFile = (if p \<noteq> [] then p else k)
                  in Inr (fd @ [(formKeyFile, FFile f)]))
             | JArr items \<Rightarrow>
                 (if length items = 0 then Inr (fd @ [(formKey, FString [])])
                  else appendItems formKey items 0 fd)
             | JObj entries \<Rightarrow> jsonToFormData entries fd formKey
             | _ \<Rightarrow>
                 (case toString_or_empty val of
                    Inl e \<Rightarrow> Inl e
                  | Inr s \<Rightarrow> Inr (fd @ [(formKey, FString s)])))
         = (if valueThrows val then Inl TypeError else Inr (fd @ entryFields p k val))"
proof (cases val)
  case (JObj es)
  then show ?thesis using nested[OF JObj] by (simp add: formKeyOf_def)
next
  case (JArr items)
  then show ?thesis
    by (cases "items = []") (simp_all add: appendItems_eq formKeyOf_def)
qed (simp_all add: toString_or_empty_eq formKeyOf_def the_string_def)

lemma jsonToFormData_eq:
  "jsonToFormData obj fd p =
     (if objThrows obj then Inl TypeError else Inr (fd @ objFields p obj))"
  and forIn_eq:
  "set (map fst rest) \<subseteq> set (map fst obj) \<longrightarrow>
   forIn obj rest fd p =
     (if (rest \<noteq> [] \<and> ''hasOwnProperty'' \<in> set (map fst obj)) \<or>
         list_ex (\<lambda>(k, v). valueThrows v) rest
      then Inl TypeError else Inr (fd @ objFields p rest))"
proof (induction obj fd p and obj rest fd p rule: jsonToFormData_forIn.induct)
  case (1 jsonObject formData parentKey)
  have "''hasOwnProperty'' \<in> set (map fst jsonObject) \<Longrightarrow> jsonObject \<noteq> []"
    by auto
  then show ?case
    using "1.IH" by (auto simp: jsonToFormData.simps objThrows.simps)
next
  case (2 jsonObject formData parentKey)
  show ?case by simp
next
  case (3 jsonObject key val rest formData parentKey)
  show ?case
  proof
    assume sub: "set (map fst ((key, val) # rest)) \<subseteq> set (map fst jsonObject)"
    show "forIn jsonObject ((key, val) # rest) formData parentKey =
       (if ((key, val) # rest \<noteq> [] \<and> ''hasOwnProperty'' \<in> set (map fst jsonObject)) \<or>
           list_ex (\<lambda>(k, v). valueThrows v) ((key, val) # rest)
        then Inl TypeError else Inr (formData @ objFields parentKey ((key, val) # rest)))"
    proof (cases "''hasOwnProperty'' \<in> set (map fst jsonObject)")
      case True
      then show ?thesis by (simp add: forIn.simps(2) hasOwnProperty_def)
    next
      case False
      have own: "hasOwnProperty jsonObject key = Inr True"
        using False sub by (simp add: hasOwnProperty_def)
      have nested: "jsonToFormData es formData (formKeyOf parentKey key) =
          (if objThrows es then Inl TypeError
           else Inr (formData @ objFields (formKeyOf parentKey key) es))"
        if "val = JObj es" for es
        using "3.IH"(1)[OF own _ _ that, of "formKeyOf parentKey key"]
        by (simp add: formKeyOf_def)
      note step = entry_step[of val formData parentKey key, OF nested]
      show ?thesis
      proof (cases "valueThrows val")
        case True
        then show ?thesis
          using step by (simp add: forIn.simps(2) own)
      next
        case notthrow: False
        have rest: "forIn jsonObject rest (formData @ entryFields parentKey key val) parentKey =
          (if (rest \<noteq> [] \<and> ''hasOwnProperty'' \<in> set (map fst jsonObject)) \<or>
              list_ex (\<lambda>(k, v). valueThrows v) rest
           then Inl TypeError
           else Inr ((formData @ entryFields parentKey key val) @ objFields parentKey rest))"
          using "3.IH"(2)[OF own, of "formData @ entryFields parentKey key val"] step notthrow sub
          by simp
        show ?thesis
          using step notthrow rest False by (simp add: forIn.simps(2) own)
      qed
    qed
  qed
qed

lemma jsonToFormData_Inr:
  "jsonToFormData obj fd p = Inr out \<longleftrightarrow> (\<not> objThrows obj \<and> out = fd @ objFields p obj)"
  by (auto simp: jsonToFormData_eq)


lemma objThrows_Cons:
  "objThrows ((k, v) # es) = (k = ''hasOwnProperty'' \<or> valueThrows v \<or> objThrows es)"
  by (auto simp: objThrows.simps)

lemma objThrows_Nil: "\<not> objThrows []"
  by (simp add: objThrows.simps)



text \<open>
  The names an entry can produce. Under a non-empty parent key every name is the parent
  key itself (a file) or ends in a closing bracket; at top level, an entry with a
  non-empty key produces its own key or names ending in a bracket.
\<close>

lemma formKeyOf_nested: "p \<noteq> [] \<Longrightarrow> ends_bracket (formKeyOf p k)"
  by (simp add: formKeyOf_def ends_bracket_def)

lemma itemFields_names:
  "(n, x) \<in> set (itemFields fk items i) \<Longrightarrow> n = fk \<or> ends_bracket n"
  by (induction items arbitrary: i) (auto simp: ends_bracket_def split: jsval.splits)

lemma nested_names:
  "p \<noteq> [] \<longrightarrow> (\<forall>(n, x) \<in> set (entryFields p k v). n = p \<or> ends_bracket n)"
  and nested_names_obj:
  "p \<noteq> [] \<longrightarrow> (\<forall>(n, x) \<in> set (objFields p es). n = p \<or> ends_bracket n)"
proof (induction p k v and p es rule: entryFields_objFields.induct)
  case (2 parentKey key items)
  show ?case
    using itemFields_names[of _ _ "formKeyOf parentKey key" items 0]
      formKeyOf_nested[of parentKey key]
    by auto
next
  case (3 parentKey key entries)
  then show ?case
    using formKeyOf_nested[of parentKey key] by (auto simp: formKeyOf_def)
qed (auto dest: formKeyOf_nested)

lemma top_level_names:
  assumes "k \<noteq> []" and "(n, x) \<in> set (entryFields [] k v)"
  shows "n = k \<or> ends_bracket n"
proof (cases v)
  case (JArr items)
  then show ?thesis
    using assms itemFields_names[of n x k items 0]
    by (cases "items = []") (simp_all add: formKeyOf_def)
next
  case (JObj es)
  then show ?thesis
    using assms nested_names_obj[of k es] by (auto simp: formKeyOf_def)
qed (use assms in \<open>simp_all add: formKeyOf_def\<close>)

lemma entry_without_name:
  assumes "k \<noteq> a" and "k \<noteq> []" and "\<not> ends_bracket a"
  shows "filter (\<lambda>(n, x). n = a) (entryFields [] k v) = []"
  using assms top_level_names[of k _ _ v] by (auto simp: filter_empty_conv)

lemma others_without_name:
  assumes "a \<notin> fst ` set obj" and "\<forall>k \<in> fst ` set obj. k \<noteq> []" and "\<not> ends_bracket a"
  shows "filter (\<lambda>(n, x). n = a) (objFields [] obj) = []"
  using assms
proof (induction obj)
  case Nil
  show ?case by simp
next
  case (Cons e obj)
  obtain k v where e: "e = (k, v)" by (cases e)
  have "filter (\<lambda>(n, x). n = a) (entryFields [] k v) = []"
    using Cons.prems e by (intro entry_without_name) auto
  moreover have "filter (\<lambda>(n, x). n = a) (objFields [] obj) = []"
    using Cons.prems by (intro Cons.IH) auto
  ultimately show ?case by (simp add: e)
qed

lemma empty_array_only_field:
  assumes "distinct (map fst obj)" and "(a, JArr []) \<in> set obj"
    and "\<forall>k \<in> fst ` set obj. k \<noteq> a \<longrightarrow> k \<noteq> []" and "\<not> ends_bracket a"
  shows "filter (\<lambda>(n, x). n = a) (objFields [] obj) = [(a, FString [])]"
  using assms
proof (induction obj)
  case Nil
  then show ?case by simp
next
  case (Cons e obj)
  obtain k v where e: "e = (k, v)" by (cases e)
  show ?case
  proof (cases "k = a")
    case True
    have notin: "a \<notin> fst ` set obj" using Cons.prems(1) e True by simp
    then have v: "v = JArr []" using Cons.prems(2) e True by force
    have "\<forall>k \<in> fst ` set obj. k \<noteq> []"
    proof
      fix k' assume k': "k' \<in> fst ` set obj"
      then have "k' \<noteq> a" using notin by blast
      moreover have "k' \<in> fst ` set (e # obj)" using k' by auto
      ultimately show "k' \<noteq> []" using Cons.prems(3) by blast
    qed
    then have "filter (\<lambda>(n, x). n = a) (objFields [] obj) = []"
      using notin Cons.prems(4) by (intro others_without_name)
    then show ?thesis
      by (simp add: e True v formKeyOf_def)
  next
    case False
    have "filter (\<lambda>(n, x). n = a) (entryFields [] k v) = []"
      using Cons.prems e False by (intro entry_without_name) auto
    moreover have "filter (\<lambda>(n, x). n = a) (objFields [] obj) = [(a, FString [])]"
      using Cons.prems e False by (intro Cons.IH) auto
    ultimately show ?thesis by (simp add: e)
  qed
qed

lemma entry_fields_member:
  "(k, v) \<in> set obj \<Longrightarrow> set (entryFields p k v) \<subseteq> set (objFields p obj)"
  by (induction obj) auto

text \<open>
  Claim C7, as amended. The payload \<open>{a: []}\<close> encodes to the single field \<open>a\<close> with the
  empty string, for every key \<open>a\<close> other than \<^verbatim>\<open>hasOwnProperty\<close>. Whenever the encoder
  returns a form for a payload that maps the top-level key \<open>a\<close> to an empty array, the
  form contains the field \<open>a\<close> with the empty string; it is the only field named \<open>a\<close>
  provided that the keys are distinct, \<open>a\<close> does not end in a closing bracket and no
  other top-level key is the empty string (other entries produce names that are their
  own key or end in a bracket, except under an empty key, whose nested mapping is encoded
  as if it were at top level). The encoder returns a form for every payload outside
  \<open>objThrows\<close>.
\<close>

theorem form_empty_array:
  "(a \<noteq> ''hasOwnProperty'' \<longrightarrow> jsonToFormData [(a, JArr [])] [] [] = Inr [(a, FString [])]) \<and>
   (jsonToFormData obj [] [] = Inr out \<and> (a, JArr []) \<in> set obj \<longrightarrow>
      (a, FString []) \<in> set out) \<and>
   (jsonToFormData obj [] [] = Inr out \<and> distinct (map fst obj) \<and> (a, JArr []) \<in> set obj \<and>
    (\<forall>k \<in> fst ` set obj. k \<noteq> a \<longrightarrow> k \<noteq> []) \<and> \<not> ends_bracket a \<longrightarrow>
      filter (\<lambda>(n, v). n = a) out = [(a, FString [])]) \<and>
   (\<not> objThrows obj \<longrightarrow> (\<exists>out'. jsonToFormData obj [] [] = Inr out'))"
proof -
  have single: "a \<noteq> ''hasOwnProperty'' \<longrightarrow>
      jsonToFormData [(a, JArr [])] [] [] = Inr [(a, FString [])]"
    by (simp add: jsonToFormData_eq objThrows_Cons objThrows_Nil formKeyOf_def)
  have member: "jsonToFormData obj [] [] = Inr out \<and> (a, JArr []) \<in> set obj \<longrightarrow>
      (a, FString []) \<in> set out"
    using entry_fields_member[of a "JArr []" obj "[]"]
    by (auto simp: jsonToFormData_Inr formKeyOf_def)
  have only: "jsonToFormData obj [] [] = Inr out \<and> distinct (map fst obj) \<and>
      (a, JArr []) \<in> set obj \<and> (\<forall>k \<in> fst ` set obj. k \<noteq> a \<longrightarrow> k \<noteq> []) \<and>
      \<not> ends_bracket a \<longrightarrow> filter (\<lambda>(n, v). n = a) out = [(a, FString [])]"
    using empty_array_only_field[of obj a] by (auto simp: jsonToFormData_Inr)
  show ?thesis
    using single member only by (simp add: jsonToFormData_eq)
qed

theorem form_empty_array_witness:
  "jsonToFormData [(''a'', JArr [])] [] [] = Inr [(''a'', FString [])] \<and>
   jsonToFormData [(''n'', JStr ''x''), (''a'', JArr []), (''o'', JObj [(''a'', JStr ''1'')])] [] []
     = Inr [(''n'', FString ''x''), (''a'', FString []), (''o[a]'', FString ''1'')] \<and>
   filter (\<lambda>(n, v). n = ''a'')
     [(''n'', FString ''x''), (''a'', FString []), (''o[a]'', FString ''1'')]
     = [(''a'', FString [])] \<and>
   (\<exists>out'. jsonToFormData [(''n'', JStr ''x''), (''a'', JArr []), (''o'', JObj [(''a'', JStr ''1'')])] [] []
      = Inr out')"
proof -
  have run: "jsonToFormData [(''n'', JStr ''x''), (''a'', JArr []), (''o'', JObj [(''a'', JStr ''1'')])] [] []
     = Inr [(''n'', FString ''x''), (''a'', FString []), (''o[a]'', FString ''1'')]"
    by code_simp
  have fine: "\<not> objThrows [(''n'', JStr ''x''), (''a'', JArr []), (''o'', JObj [(''a'', JStr ''1'')])]"
    by code_simp
  show ?thesis
    using form_empty_array[where a = "''a''"
        and obj = "[(''n'', JStr ''x''), (''a'', JArr []), (''o'', JObj [(''a'', JStr ''1'')])]"
        and out = "[(''n'', FString ''x''), (''a'', FString []), (''o[a]'', FString ''1'')]"]
      run fine
    by (simp add: ends_bracket_def)
qed

theorem form_empty_array_counterexample:
  "jsonToFormData [(''a[0]'', JArr []), (''a'', JArr [JStr ''x''])] [] [] =
     Inr [(''a[0]'', FString []), (''a[0]'', FString ''x'')]"
  by code_simp



section \<open>Properties of the query encoders\<close>

text \<open>
  The query encoders against the flattening: each throws exactly when \<^verbatim>\<open>toString()\<close>
  throws on a leaf, and otherwise returns the \<^verbatim>\<open>set\<close> calls of the leaves replayed in
  order.
\<close>

lemma leavesThrow_append [simp]: "leavesThrow (xs @ ys) = (leavesThrow xs \<or> leavesThrow ys)"
  by (simp add: leavesThrow_def)

lemma leavesThrow_Nil [simp]: "leavesThrow [] = False"
  by (simp add: leavesThrow_def)

lemma hasNullish_leavesThrow: "hasNullish leaves \<Longrightarrow> leavesThrow leaves"
  by (auto simp: hasNullish_def leavesThrow_def list_ex_iff)

lemma setAll_append [simp]: "setAll (xs @ ys) sp = setAll ys (setAll xs sp)"
  by (simp add: setAll_def)

lemma setAll_Nil [simp]: "setAll [] sp = sp"
  by (simp add: setAll_def)

lemma addParam_leaves:
  "addParam pfx key v sp =
     (if leavesThrow (queryLeaves pfx key v) then Inl TypeError
      else Inr (setAll (queryLeaves pfx key v) sp))"
  and addParam_forEach_leaves:
  "addParam_forEach pfx key es sp =
     (if leavesThrow (concat (map (\<lambda>(nk, nv). queryLeaves pfx (pfx @ key @ ''['' @ nk @ '']'') nv) es))
      then Inl TypeError
      else Inr (setAll (concat (map (\<lambda>(nk, nv). queryLeaves pfx (pfx @ key @ ''['' @ nk @ '']'') nv) es)) sp))"
proof (induction pfx key v sp and pfx key es sp rule: addParam_addParam_forEach.induct)
  case (1 pfx key "value" searchParams)
  show ?case
  proof (cases "value")
    case (JObj entries)
    then show ?thesis
      using "1.IH"[of entries] by (simp add: addParam.simps)
  qed (simp_all add: addParam.simps toString_eq leavesThrow_def setAll_def)
next
  case (2 pfx key searchParams)
  show ?case by simp
next
  case (3 pfx key nestedKey nestedValue rest searchParams)
  show ?case
    using "3.IH"(1) "3.IH"(2)
    by (simp split: sum.splits)
qed


lemma addParams_leaves:
  "addParams pfx params sp =
     (if leavesThrow (paramLeaves pfx params) then Inl TypeError
      else Inr (setAll (paramLeaves pfx params) sp))"
proof (induction params arbitrary: sp)
  case Nil
  show ?case by (simp add: paramLeaves_def)
next
  case (Cons e params)
  obtain k v where e: "e = (k, v)" by (cases e)
  have split: "paramLeaves pfx (e # params) = queryLeaves pfx k v @ paramLeaves pfx params"
    by (simp add: paramLeaves_def e)
  show ?case
    unfolding split by (simp add: e addParam_leaves Cons.IH)
qed

lemma addParams_append:
  "addParams pfx (xs @ ys) sp =
     (case addParams pfx xs sp of Inl e \<Rightarrow> Inl e | Inr sp1 \<Rightarrow> addParams pfx ys sp1)"
  by (induction xs arbitrary: sp) (auto split: sum.splits)

lemma setEntries_leaves:
  "setEntries params sp =
     (if leavesThrow params then Inl TypeError else Inr (setAll params sp))"
proof (induction params arbitrary: sp)
  case Nil
  show ?case by simp
next
  case (Cons e params)
  obtain k v where e: "e = (k, v)" by (cases e)
  show ?case
    by (simp add: e Cons.IH toString_eq leavesThrow_def setAll_def)
qed

text \<open>
  \<^verbatim>\<open>set\<close> keeps names distinct and acts on the lookup as a map update, so replaying a list
  of writes leaves, under each name, the string written last.
\<close>

lemma filter_other_keys:
  "fst ` set (filter (\<lambda>(n', v'). n' \<noteq> name) sp) = fst ` set sp - {name}"
  by (induction sp) auto

lemma searchParams_set_keys:
  "fst ` set (searchParams_set sp name s) = insert name (fst ` set sp)"
proof (induction sp)
  case Nil
  show ?case by simp
next
  case (Cons e sp)
  obtain n v where e: "e = (n, v)" by (cases e)
  show ?case
  proof (cases "n = name")
    case True
    then show ?thesis by (auto simp: e filter_other_keys)
  next
    case False
    then show ?thesis using Cons.IH by (auto simp: e)
  qed
qed

lemma searchParams_set_distinct:
  "distinct (map fst sp) \<Longrightarrow> distinct (map fst (searchParams_set sp name s))"
proof (induction sp)
  case Nil
  show ?case by simp
next
  case (Cons e sp)
  obtain n v where e: "e = (n, v)" by (cases e)
  show ?case
  proof (cases "n = name")
    case True
    have "name \<notin> fst ` set sp"
      using Cons.prems e True by simp
    then have "filter (\<lambda>(n', v'). n' \<noteq> name) sp = sp"
      by (force simp: filter_id_conv)
    then show ?thesis using Cons.prems e True by simp
  next
    case False
    have "n \<notin> fst ` set (searchParams_set sp name s)"
      using Cons.prems e False by (simp add: searchParams_set_keys)
    then show ?thesis using Cons e False by simp
  qed
qed

lemma map_of_filter_other:
  "k \<noteq> name \<Longrightarrow> map_of (filter (\<lambda>(n', v'). n' \<noteq> name) sp) k = map_of sp k"
  by (induction sp) auto

lemma searchParams_set_lookup:
  "map_of (searchParams_set sp name s) = (map_of sp)(name \<mapsto> s)"
proof (induction sp)
  case Nil
  show ?case by simp
next
  case (Cons e sp)
  obtain n v where e: "e = (n, v)" by (cases e)
  show ?case
  proof (cases "n = name")
    case True
    show ?thesis
      by (rule ext) (simp add: e True map_of_filter_other)
  next
    case False
    then show ?thesis using Cons.IH by (auto simp: e)
  qed
qed


lemma setAll_distinct:
  "distinct (map fst sp) \<Longrightarrow> distinct (map fst (setAll leaves sp))"
proof (induction leaves arbitrary: sp)
  case Nil
  then show ?case by simp
next
  case (Cons e leaves)
  obtain n v where e: "e = (n, v)" by (cases e)
  have "setAll (e # leaves) sp = setAll leaves (searchParams_set sp n (the_string v))"
    by (simp add: setAll_def e)
  then show ?case
    using Cons.IH[OF searchParams_set_distinct[OF Cons.prems]] by simp
qed

lemma setAll_lookup:
  "map_of (setAll leaves sp) = map_of sp ++ map_of (rev (written leaves))"
proof (induction leaves arbitrary: sp)
  case Nil
  show ?case by (simp add: written_def)
next
  case (Cons e leaves)
  obtain n v where e: "e = (n, v)" by (cases e)
  have "setAll (e # leaves) sp = setAll leaves (searchParams_set sp n (the_string v))"
    by (simp add: setAll_def e)
  then have "map_of (setAll (e # leaves) sp) =
      (map_of sp)(n \<mapsto> the_string v) ++ map_of (rev (written leaves))"
    by (simp only: Cons.IH searchParams_set_lookup)
  also have "\<dots> = map_of sp ++ map_of (rev (written (e # leaves)))"
    by (rule ext) (auto simp: written_def e map_add_def split: option.splits)
  finally show ?case .
qed


lemma setAll_keys: "fst ` set (setAll leaves sp) = fst ` set sp \<union> fst ` set leaves"
proof (induction leaves arbitrary: sp)
  case Nil
  show ?case by simp
next
  case (Cons e leaves)
  obtain n v where e: "e = (n, v)" by (cases e)
  have "setAll (e # leaves) sp = setAll leaves (searchParams_set sp n (the_string v))"
    by (simp add: setAll_def e)
  then show ?case
    by (simp add: Cons.IH searchParams_set_keys e)
qed

lemma last_write_member:
  assumes "name \<notin> fst ` set later"
  shows "(name, the_string v) \<in> set (setAll (earlier @ (name, v) # later) [])"
proof -
  have "fst ` set (written later) = fst ` set later"
    by (force simp: written_def)
  then have none: "map_of (rev (written later)) name = None"
    using assms by (simp add: map_of_eq_None_iff)
  have "map_of (setAll (earlier @ (name, v) # later) []) name =
        map_of (rev (written (earlier @ (name, v) # later))) name"
    by (simp only: setAll_lookup) simp
  also have "\<dots> = Some (the_string v)"
    using none by (simp add: written_def map_add_def)
  finally show ?thesis by (rule map_of_SomeD)
qed

lemma paramLeaves_append:
  "paramLeaves pfx (xs @ ys) = paramLeaves pfx xs @ paramLeaves pfx ys"
  by (simp add: paramLeaves_def)

lemma Parser_setSearchParams_eq:
  "Parser_setSearchParams params pfx =
     (if leavesThrow (paramLeaves pfx params) then Inl TypeError
      else Inr (setAll (paramLeaves pfx params) []))"
  by (simp add: Parser_setSearchParams_def addParams_leaves)

lemma NextClient_setSearchParams_eq:
  "NextClient_setSearchParams params =
     (if leavesThrow params then Inl TypeError else Inr (setAll params []))"
  by (simp add: NextClient_setSearchParams_def setEntries_leaves)

lemma sequence_map_ok:
  "(\<And>x. x \<in> set xs \<Longrightarrow> f x = Inr (g x)) \<Longrightarrow> sequence (map f xs) = Inr (map g xs)"
  by (induction xs) auto

lemma ToString_array_printable:
  assumes "\<forall>item \<in> set items. \<not> unprintable item"
  shows "ToString (JArr items) =
     Inr (join '','' (map (\<lambda>item. if nullish item then [] else the_string item) items))"
proof -
  have seq: "sequence (map (\<lambda>item. if nullish item then Inr [] else ToString item) items) =
      Inr (map (\<lambda>item. if nullish item then [] else the_string item) items)"
    by (rule sequence_map_ok) (use assms in \<open>simp add: ToString_eq\<close>)
  show ?thesis by (simp add: seq)
qed

text \<open>
  Claim C1, as amended. The query encoders do not descend into an array: the guard of the
  nested encoder excludes arrays from the object branch, and the flat encoder of
  \<^verbatim>\<open>request.js\<close> descends into nothing. The one-entry mapping \<open>{k: [v0, v1, ...]}\<close>
  therefore encodes to the single pair of \<open>k\<close> and the array's string conversion, or
  throws when that conversion throws; the conversion is the elements joined by commas,
  \<open>null\<close> and \<open>undefined\<close> printed empty, when no element's conversion throws. In a
  larger mapping on which the encoder returns, the names of the result are the names of
  the leaves of the other entries together with the (prefixed) key \<open>k\<close>, so a name
  \<open>k[i]\<close> is there only if another entry flattens to it, and the result holds the pair
  of \<open>k\<close> and the conversion unless a later entry flattens to the name \<open>k\<close>.
\<close>

theorem query_array_single_pair:
  "Parser_setSearchParams [(k, JArr items)] [] =
     (case ToString (JArr items) of Inl e \<Rightarrow> Inl e | Inr s \<Rightarrow> Inr [(k, s)]) \<and>
   NextClient_setSearchParams [(k, JArr items)] =
     (case ToString (JArr items) of Inl e \<Rightarrow> Inl e | Inr s \<Rightarrow> Inr [(k, s)]) \<and>
   ((\<forall>item \<in> set items. \<not> unprintable item) \<longrightarrow>
      ToString (JArr items) =
        Inr (join '','' (map (\<lambda>item. if nullish item then [] else the_string item) items))) \<and>
   (Parser_setSearchParams (before @ (k, JArr items) # after) pfx = Inr sp \<longrightarrow>
      (\<exists>s. ToString (JArr items) = Inr s \<and>
           fst ` set sp = fst ` set (paramLeaves pfx before) \<union> {pfx @ k} \<union>
                          fst ` set (paramLeaves pfx after) \<and>
           (pfx @ k \<notin> fst ` set (paramLeaves pfx after) \<longrightarrow> (pfx @ k, s) \<in> set sp))) \<and>
   (NextClient_setSearchParams (before @ (k, JArr items) # after) = Inr sp' \<longrightarrow>
      (\<exists>s. ToString (JArr items) = Inr s \<and>
           fst ` set sp' = fst ` set before \<union> {k} \<union> fst ` set after \<and>
           (k \<notin> fst ` set after \<longrightarrow> (k, s) \<in> set sp')))"
proof -
  have leaf: "paramLeaves pfx (before @ (k, JArr items) # after) =
      paramLeaves pfx before @ (pfx @ k, JArr items) # paramLeaves pfx after"
    by (simp add: paramLeaves_def)
  have single: "Parser_setSearchParams [(k, JArr items)] [] =
      (case ToString (JArr items) of Inl e \<Rightarrow> Inl e | Inr s \<Rightarrow> Inr [(k, s)])"
    "NextClient_setSearchParams [(k, JArr items)] =
      (case ToString (JArr items) of Inl e \<Rightarrow> Inl e | Inr s \<Rightarrow> Inr [(k, s)])"
    by (cases "ToString (JArr items)";
        simp add: Parser_setSearchParams_def NextClient_setSearchParams_def
          addParam.simps toString_def del: ToString.simps)+
  have nested: "Parser_setSearchParams (before @ (k, JArr items) # after) pfx = Inr sp \<longrightarrow>
      (\<exists>s. ToString (JArr items) = Inr s \<and>
           fst ` set sp = fst ` set (paramLeaves pfx before) \<union> {pfx @ k} \<union>
                          fst ` set (paramLeaves pfx after) \<and>
           (pfx @ k \<notin> fst ` set (paramLeaves pfx after) \<longrightarrow> (pfx @ k, s) \<in> set sp))"
  proof
    assume run: "Parser_setSearchParams (before @ (k, JArr items) # after) pfx = Inr sp"
    then have ok: "\<not> leavesThrow (paramLeaves pfx (before @ (k, JArr items) # after))"
      and sp: "sp = setAll (paramLeaves pfx (before @ (k, JArr items) # after)) []"
      by (auto simp: Parser_setSearchParams_eq split: if_splits)
    from ok have "\<not> unprintable (JArr items)"
      by (simp add: leaf leavesThrow_def)
    then have s: "ToString (JArr items) = Inr (the_string (JArr items))"
      by (simp add: ToString_eq)
    have keys: "fst ` set sp = fst ` set (paramLeaves pfx before) \<union> {pfx @ k} \<union>
        fst ` set (paramLeaves pfx after)"
      by (simp add: sp setAll_keys leaf)
    have mem: "pfx @ k \<notin> fst ` set (paramLeaves pfx after) \<longrightarrow>
        (pfx @ k, the_string (JArr items)) \<in> set sp"
      using last_write_member[of "pfx @ k" "paramLeaves pfx after" "JArr items"
          "paramLeaves pfx before"]
      by (simp add: sp leaf)
    show "\<exists>s. ToString (JArr items) = Inr s \<and>
           fst ` set sp = fst ` set (paramLeaves pfx before) \<union> {pfx @ k} \<union>
                          fst ` set (paramLeaves pfx after) \<and>
           (pfx @ k \<notin> fst ` set (paramLeaves pfx after) \<longrightarrow> (pfx @ k, s) \<in> set sp)"
      using s keys mem by blast
  qed
  have flat: "NextClient_setSearchParams (before @ (k, JArr items) # after) = Inr sp' \<longrightarrow>
      (\<exists>s. ToString (JArr items) = Inr s \<and>
           fst ` set sp' = fst ` set before \<union> {k} \<union> fst ` set after \<and>
           (k \<notin> fst ` set after \<longrightarrow> (k, s) \<in> set sp'))"
  proof
    assume run: "NextClient_setSearchParams (before @ (k, JArr items) # after) = Inr sp'"
    then have ok: "\<not> leavesThrow (before @ (k, JArr items) # after)"
      and sp: "sp' = setAll (before @ (k, JArr items) # after) []"
      by (auto simp: NextClient_setSearchParams_eq split: if_splits)
    from ok have "\<not> unprintable (JArr items)"
      by (simp add: leavesThrow_def)
    then have s: "ToString (JArr items) = Inr (the_string (JArr items))"
      by (simp add: ToString_eq)
    have keys: "fst ` set sp' = fst ` set before \<union> {k} \<union> fst ` set after"
      by (simp add: sp setAll_keys)
    have mem: "k \<notin> fst ` set after \<longrightarrow> (k, the_string (JArr items)) \<in> set sp'"
      using last_write_member[of k after "JArr items" before] by (simp add: sp)
    show "\<exists>s. ToString (JArr items) = Inr s \<and>
           fst ` set sp' = fst ` set before \<union> {k} \<union> fst ` set after \<and>
           (k \<notin> fst ` set after \<longrightarrow> (k, s) \<in> set sp')"
      using s keys mem by blast
  qed
  show ?thesis
    using single nested flat ToString_array_printable[of items] by blast
qed

theorem query_array_single_pair_witness:
  "Parser_setSearchParams [(''page'', JStr ''2''), (''ids'', JArr [JStr ''7'', JNull, JStr ''x'']), (''q'', JStr ''a'')] []
     = Inr [(''page'', ''2''), (''ids'', ''7,,x''), (''q'', ''a'')] \<and>
   ToString (JArr [JStr ''7'', JNull, JStr ''x'']) = Inr ''7,,x'' \<and>
   (''ids'', ''7,,x'') \<in> set [(''page'', ''2''), (''ids'', ''7,,x''), (''q'', ''a'')]"
proof -
  have run: "Parser_setSearchParams [(''page'', JStr ''2''), (''ids'', JArr [JStr ''7'', JNull, JStr ''x'']), (''q'', JStr ''a'')] []
     = Inr [(''page'', ''2''), (''ids'', ''7,,x''), (''q'', ''a'')]"
    by code_simp
  have str: "ToString (JArr [JStr ''7'', JNull, JStr ''x'']) = Inr ''7,,x''"
    by code_simp
  have later: "paramLeaves [] [(''q'', JStr ''a'')] = [(''q'', JStr ''a'')]"
    by code_simp
  show ?thesis
    using query_array_single_pair[where pfx = "[]" and before = "[(''page'', JStr ''2'')]"
        and k = "''ids''" and items = "[JStr ''7'', JNull, JStr ''x'']"
        and after = "[(''q'', JStr ''a'')]"
        and sp = "[(''page'', ''2''), (''ids'', ''7,,x''), (''q'', ''a'')]"]
      run str
    by (simp add: later)
qed

theorem query_array_counterexample:
  "Parser_setSearchParams [(''k'', JArr [JStr ''x'', JStr ''y''])] [] = Inr [(''k'', ''x,y'')]"
  by code_simp

text \<open>
  Claim C6. Whenever a query encoder returns, its result holds at most one pair per
  name, and the value found under a name is the one written last among the leaves that
  flatten to that name; it returns whenever \<^verbatim>\<open>toString()\<close> throws on no leaf. Setting a
  name twice leaves what the second \<^verbatim>\<open>set\<close> alone leaves. The form encoder, in contrast,
  repeats the field name for the files of an array.
\<close>

theorem query_last_write_wins:
  "(Parser_setSearchParams params pfx = Inr sp \<longrightarrow>
      distinct (map fst sp) \<and>
      (\<forall>name. map_of sp name = map_of (rev (written (paramLeaves pfx params))) name)) \<and>
   (NextClient_setSearchParams params = Inr sp' \<longrightarrow>
      distinct (map fst sp') \<and>
      (\<forall>name. map_of sp' name = map_of (rev (written params)) name)) \<and>
   (\<not> leavesThrow (paramLeaves pfx params) \<longrightarrow>
      Parser_setSearchParams params pfx = Inr (setAll (paramLeaves pfx params) [])) \<and>
   (\<not> leavesThrow params \<longrightarrow> NextClient_setSearchParams params = Inr (setAll params [])) \<and>
   searchParams_set (searchParams_set sp0 name v1) name v2 = searchParams_set sp0 name v2 \<and>
   (k \<noteq> ''hasOwnProperty'' \<longrightarrow>
      jsonToFormData [(k, JArr [JFile f1, JFile f2])] [] [] = Inr [(k, FFile f1), (k, FFile f2)])"
proof -
  have returns: "\<not> leavesThrow (paramLeaves pfx params) \<longrightarrow>
      Parser_setSearchParams params pfx = Inr (setAll (paramLeaves pfx params) [])"
    "\<not> leavesThrow params \<longrightarrow> NextClient_setSearchParams params = Inr (setAll params [])"
    by (simp_all add: Parser_setSearchParams_eq NextClient_setSearchParams_eq)
  have nested: "Parser_setSearchParams params pfx = Inr sp \<longrightarrow>
      distinct (map fst sp) \<and>
      (\<forall>name. map_of sp name = map_of (rev (written (paramLeaves pfx params))) name)"
    using setAll_distinct[of "[]" "paramLeaves pfx params"]
      setAll_lookup[of "paramLeaves pfx params" "[]"]
    by (auto simp: Parser_setSearchParams_eq split: if_splits)
  have flat: "NextClient_setSearchParams params = Inr sp' \<longrightarrow>
      distinct (map fst sp') \<and>
      (\<forall>name. map_of sp' name = map_of (rev (written params)) name)"
    using setAll_distinct[of "[]" params] setAll_lookup[of params "[]"]
    by (auto simp: NextClient_setSearchParams_eq split: if_splits)
  have twice: "searchParams_set (searchParams_set sp0 name v1) name v2 = searchParams_set sp0 name v2"
    by (induction sp0) (auto simp: filter_id_conv)
  have files: "k \<noteq> ''hasOwnProperty'' \<longrightarrow>
      jsonToFormData [(k, JArr [JFile f1, JFile f2])] [] [] = Inr [(k, FFile f1), (k, FFile f2)]"
    by (simp add: jsonToFormData_eq objThrows_Cons objThrows_Nil formKeyOf_def)
  show ?thesis using nested flat returns twice files by blast
qed

theorem query_last_write_wins_witness:
  "Parser_setSearchParams [(''a[b]'', JStr ''first''), (''a'', JObj [(''b'', JStr ''second'')])] []
     = Inr [(''a[b]'', ''second'')] \<and>
   distinct (map fst [(''a[b]'', ''second'')]) \<and>
   map_of [(''a[b]'', ''second'')] ''a[b]'' = Some ''second''"
proof -
  have run: "Parser_setSearchParams [(''a[b]'', JStr ''first''), (''a'', JObj [(''b'', JStr ''second'')])] []
     = Inr [(''a[b]'', ''second'')]"
    by code_simp
  have leaves: "written (paramLeaves [] [(''a[b]'', JStr ''first''), (''a'', JObj [(''b'', JStr ''second'')])])
     = [(''a[b]'', ''first''), (''a[b]'', ''second'')]"
    by code_simp
  show ?thesis
    using query_last_write_wins[where
        params = "[(''a[b]'', JStr ''first''), (''a'', JObj [(''b'', JStr ''second'')])]"
        and pfx = "[]" and sp = "[(''a[b]'', ''second'')]"]
      run
    by (simp add: leaves)
qed

text \<open>
  Claim C9. The mappings \<open>{a: null}\<close> and \<open>{a: undefined}\<close> make both query encoders throw
  a \<open>TypeError\<close>, and so does every mapping with a \<open>null\<close> or \<open>undefined\<close> leaf (for the
  flat encoder: top-level value). Precisely, an encoder throws a \<open>TypeError\<close> when
  \<^verbatim>\<open>toString()\<close> throws on a leaf, which it does on a nullish leaf and on one whose
  conversion throws, and returns the replayed \<^verbatim>\<open>set\<close> calls otherwise. The form encoder
  turns the one-entry mappings \<open>{k: null}\<close> and \<open>{k: undefined}\<close> into the field with the
  empty string, and whenever it returns a form, the form has that field for each
  nullish entry of the mapping.
\<close>

theorem query_nullish_throws:
  "Parser_setSearchParams [(a, JNull)] [] = Inl TypeError \<and>
   Parser_setSearchParams [(a, JUndefined)] [] = Inl TypeError \<and>
   NextClient_setSearchParams [(a, JNull)] = Inl TypeError \<and>
   NextClient_setSearchParams [(a, JUndefined)] = Inl TypeError \<and>
   (hasNullish (paramLeaves pfx params) \<longrightarrow> Parser_setSearchParams params pfx = Inl TypeError) \<and>
   (hasNullish params \<longrightarrow> NextClient_setSearchParams params = Inl TypeError) \<and>
   Parser_setSearchParams params pfx =
     (if leavesThrow (paramLeaves pfx params) then Inl TypeError
      else Inr (setAll (paramLeaves pfx params) [])) \<and>
   NextClient_setSearchParams params =
     (if leavesThrow params then Inl TypeError else Inr (setAll params [])) \<and>
   (k \<noteq> ''hasOwnProperty'' \<longrightarrow>
      jsonToFormData [(k, JNull)] [] p = Inr [(formKeyOf p k, FString [])] \<and>
      jsonToFormData [(k, JUndefined)] [] p = Inr [(formKeyOf p k, FString [])]) \<and>
   (jsonToFormData obj fd p = Inr out \<and> (k, v) \<in> set obj \<and> nullish v \<longrightarrow>
      (formKeyOf p k, FString []) \<in> set out)"
proof -
  have form1: "k \<noteq> ''hasOwnProperty'' \<longrightarrow>
      jsonToFormData [(k, JNull)] [] p = Inr [(formKeyOf p k, FString [])] \<and>
      jsonToFormData [(k, JUndefined)] [] p = Inr [(formKeyOf p k, FString [])]"
    by (simp add: jsonToFormData_eq objThrows_Cons objThrows_Nil)
  have form2: "jsonToFormData obj fd p = Inr out \<and> (k, v) \<in> set obj \<and> nullish v \<longrightarrow>
      (formKeyOf p k, FString []) \<in> set out"
  proof (cases v)
    case JUndefined
    then show ?thesis
      using entry_fields_member[of k v obj p] by (auto simp: jsonToFormData_Inr)
  next
    case JNull
    then show ?thesis
      using entry_fields_member[of k v obj p] by (auto simp: jsonToFormData_Inr)
  qed simp_all
  have throws: "hasNullish (paramLeaves pfx params) \<longrightarrow> Parser_setSearchParams params pfx = Inl TypeError"
    "hasNullish params \<longrightarrow> NextClient_setSearchParams params = Inl TypeError"
    by (simp_all add: Parser_setSearchParams_eq NextClient_setSearchParams_eq hasNullish_leavesThrow)
  have concrete: "Parser_setSearchParams [(a, JNull)] [] = Inl TypeError"
    "Parser_setSearchParams [(a, JUndefined)] [] = Inl TypeError"
    "NextClient_setSearchParams [(a, JNull)] = Inl TypeError"
    "NextClient_setSearchParams [(a, JUndefined)] = Inl TypeError"
    by (simp_all add: Parser_setSearchParams_eq NextClient_setSearchParams_eq
        leavesThrow_def paramLeaves_def)
  show ?thesis
    using form1 form2 throws concrete
      Parser_setSearchParams_eq[of params pfx] NextClient_setSearchParams_eq[of params]
    by blast
qed

theorem query_nullish_throws_witness:
  "Parser_setSearchParams [(''a'', JObj [(''b'', JStr ''x''), (''c'', JUndefined)])] [] = Inl TypeError \<and>
   Parser_setSearchParams [(''a'', JArr [JNull])] [] = Inr [(''a'', [])] \<and>
   jsonToFormData [(''a'', JNull)] [] [] = Inr [(''a'', FString [])]"
proof -
  have l1: "hasNullish (paramLeaves [] [(''a'', JObj [(''b'', JStr ''x''), (''c'', JUndefined)])])"
    by code_simp
  have l2: "\<not> leavesThrow (paramLeaves [] [(''a'', JArr [JNull])])"
    by code_simp
  have l3: "setAll (paramLeaves [] [(''a'', JArr [JNull])]) [] = [(''a'', [])]"
    by code_simp
  show ?thesis
    using query_nullish_throws[where a = "''a''" and pfx = "[]" and k = "''a''" and p = "[]"
        and params = "[(''a'', JObj [(''b'', JStr ''x''), (''c'', JUndefined)])]"]
      query_nullish_throws[where a = "''a''" and pfx = "[]" and k = "''a''" and p = "[]"
        and params = "[(''a'', JArr [JNull])]"]
    by (simp add: l1 l2 l3 formKeyOf_def)
qed

section \<open>Properties of sending and of the builder chain\<close>

text \<open>The two rejecting branches of reading a response, and the body of a form request
  under \<^verbatim>\<open>GET\<close>.\<close>

lemma readResponse_not_ok:
  "\<not> ok response \<Longrightarrow>
   readResponse newHttpError response =
     Inl (newHttpError (resp_status response)
        (case resp_json response of Some parsed \<Rightarrow> parsed | None \<Rightarrow> JStr (resp_text response)))"
  by (simp add: readResponse_def)

lemma readResponse_unsupported:
  "ok response \<Longrightarrow> resp_content_type response = Some ct \<Longrightarrow>
   \<not> includes_str ct ''application/json'' \<Longrightarrow> \<not> includes_str ct ''text/'' \<Longrightarrow> ct \<noteq> [] \<Longrightarrow>
   readResponse newHttpError response = Inl (Error (''Unsupported content type: '' @ ct))"
  by (simp add: readResponse_def)

lemma FormRequest_get_no_body:
  "fr_method this = GET \<Longrightarrow> req_body (FormRequest_request store this hs i) = None"
  by (simp add: FormRequest_request_def)

text \<open>
  Claim C2. \<^verbatim>\<open>FormRequest.send\<close> passes no body under \<^verbatim>\<open>GET\<close> (lemma
  \<open>FormRequest_get_no_body\<close>), but \<^verbatim>\<open>JsonRequest.send\<close> does not look at the method: for the
  request \<^verbatim>\<open>get("/users").json({a: 1})\<close> the call to the transport has method \<^verbatim>\<open>GET\<close> and
  carries the JSON text of the payload as its body.
\<close>

theorem json_get_carries_body:
  "jr_method demo_get_json = GET \<and>
   req_method (JsonRequest_request demo_get_json Map.empty) = GET \<and>
   req_body (JsonRequest_request demo_get_json Map.empty) = Some (JsonText (JObj [(''a'', JNum (safe_of 1))]))"
  by (simp add: demo_get_json_def JsonRequest_request_def JSON_stringify_def)

text \<open>
  Claim C4. When the transport resolves to a response whose status is outside 200 to 299,
  \<^verbatim>\<open>send\<close> of \<^verbatim>\<open>FormRequest\<close> and of \<^verbatim>\<open>JsonRequest\<close> rejects with an \<^verbatim>\<open>HttpError\<close>, of
  the class the file imports, that carries the status and the parsed body, or the body
  text when parsing fails; being a rejection, the outcome is no normal result.
\<close>

theorem not_ok_raises_HttpError:
  "(fetch (FormRequest_request store fr hs i) = Inr response \<and> \<not> ok response \<longrightarrow>
      snd (FormRequest_send fetch store fr hs i) =
        Inl (HttpError (resp_status response)
          (case resp_json response of Some parsed \<Rightarrow> parsed | None \<Rightarrow> JStr (resp_text response)))) \<and>
   (fetch (JsonRequest_request jr hs) = Inr response \<and> \<not> ok response \<longrightarrow>
      snd (JsonRequest_send fetch jr hs) =
        Inl (Json_HttpError (resp_status response)
          (case resp_json response of Some parsed \<Rightarrow> parsed | None \<Rightarrow> JStr (resp_text response))))"
  by (simp add: FormRequest_send_def JsonRequest_send_def readResponse_not_ok Let_def)

theorem not_ok_raises_HttpError_witness:
  "snd (FormRequest_send (answering demo_404) demo_store demo_upload Map.empty None) =
     Inl (HttpError 404 (JObj [(''code'', JNum (safe_of 404))])) \<and>
   snd (JsonRequest_send (answering demo_500) demo_get_json Map.empty) =
     Inl (Json_HttpError 500 (JStr ''<h1>failure</h1>''))"
  using not_ok_raises_HttpError[where fetch = "answering demo_404" and store = demo_store
      and fr = demo_upload and hs = Map.empty and i = None and response = demo_404]
    not_ok_raises_HttpError[where fetch = "answering demo_500" and jr = demo_get_json
      and hs = Map.empty and response = demo_500]
  by (simp add: answering_def ok_def demo_404_def demo_500_def)

text \<open>
  Claim C5. When the transport resolves to a response with a status from 200 to 299
  whose content type is not empty and contains neither \<^verbatim>\<open>application/json\<close> nor \<^verbatim>\<open>text/\<close>,
  \<^verbatim>\<open>send\<close> rejects with a plain \<^verbatim>\<open>Error\<close>, which is no \<^verbatim>\<open>HttpError\<close> and has no status
  code.
\<close>

theorem unsupported_content_type_raises_Error:
  "(fetch (FormRequest_request store fr hs i) = Inr response \<and> ok response \<and>
    resp_content_type response = Some ct \<and> \<not> includes_str ct ''application/json'' \<and>
    \<not> includes_str ct ''text/'' \<and> ct \<noteq> [] \<longrightarrow>
      snd (FormRequest_send fetch store fr hs i) = Inl (Error (''Unsupported content type: '' @ ct))) \<and>
   (fetch (JsonRequest_request jr hs) = Inr response \<and> ok response \<and>
    resp_content_type response = Some ct \<and> \<not> includes_str ct ''application/json'' \<and>
    \<not> includes_str ct ''text/'' \<and> ct \<noteq> [] \<longrightarrow>
      snd (JsonRequest_send fetch jr hs) = Inl (Error (''Unsupported content type: '' @ ct))) \<and>
   \<not> isNextClientError (Error (''Unsupported content type: '' @ ct)) \<and>
   error_statusCode (Error (''Unsupported content type: '' @ ct)) = None"
  by (simp add: FormRequest_send_def JsonRequest_send_def readResponse_unsupported Let_def)

theorem unsupported_content_type_raises_Error_witness:
  "snd (FormRequest_send (answering demo_xml) demo_store demo_upload Map.empty None) =
     Inl (Error ''Unsupported content type: application/xml'') \<and>
   snd (JsonRequest_send (answering demo_xml) demo_get_json Map.empty) =
     Inl (Error ''Unsupported content type: application/xml'')"
  using unsupported_content_type_raises_Error[where fetch = "answering demo_xml"
      and store = demo_store and fr = demo_upload and jr = demo_get_json and hs = Map.empty
      and i = None and response = demo_xml and ct = "''application/xml''"]
  by (simp add: answering_def ok_def demo_xml_def)




text \<open>
  Claim C10. The request returned by \<^verbatim>\<open>append\<close> has no configuration, so sending it
  produces no debug output whatever the transport answers and whatever the store holds;
  it holds the receiver's \<^verbatim>\<open>FormData\<close> object, in which the appended field is now
  present.
\<close>

theorem append_drops_config:
  "fr_config (snd (FormRequest_append store fr k f)) = None \<and>
   fst (FormRequest_send fetch store' (snd (FormRequest_append store fr k f)) hs i) = [] \<and>
   fr_formData (snd (FormRequest_append store fr k f)) = fr_formData fr \<and>
   fd_cells (fst (FormRequest_append store fr k f)) (fr_formData fr) =
     fd_cells store (fr_formData fr) @ [(k, f)]"
  by (simp add: FormRequest_append_def FormRequest_send_def debugReport_def Let_def
      split: sum.splits)

theorem append_drops_config_witness:
  "fst (FormRequest_send (answering demo_404) demo_store demo_upload Map.empty None) \<noteq> [] \<and>
   fst (FormRequest_send (answering demo_404)
          (fst (FormRequest_append demo_store demo_upload ''file'' (FFile (File ''a.txt'' ''hi''))))
          (snd (FormRequest_append demo_store demo_upload ''file'' (FFile (File ''a.txt'' ''hi''))))
          Map.empty None) = [] \<and>
   fd_cells (fst (FormRequest_append demo_store demo_upload ''file'' (FFile (File ''a.txt'' ''hi''))))
     (fr_formData demo_upload) = [(''file'', FFile (File ''a.txt'' ''hi''))]"
proof -
  have logged: "fst (FormRequest_send (answering demo_404) demo_store demo_upload Map.empty None) \<noteq> []"
    by (simp add: FormRequest_send_def debugReport_def Let_def answering_def readResponse_def
        ok_def demo_404_def demo_upload_def demo_debug_def)
  have cell: "fd_cells demo_store (fr_formData demo_upload) = []"
    by (simp add: demo_store_def)
  show ?thesis
    using append_drops_config[where store = demo_store and fr = demo_upload and k = "''file''"
        and f = "FFile (File ''a.txt'' ''hi'')" and fetch = "answering demo_404"
        and store' = "fst (FormRequest_append demo_store demo_upload ''file'' (FFile (File ''a.txt'' ''hi'')))"
        and hs = Map.empty and i = None]
      logged
    by (simp add: cell)
qed

end
